theory Spec2Isabelle
  imports Complex_Main "HOL-Library.Sublist"
begin

section \<open>Python strings and numbers\<close>

text \<open>
  The detector of \<^verbatim>\<open>fake_news_detector.py\<close> works on Python \<^verbatim>\<open>str\<close> and \<^verbatim>\<open>float\<close> values.
  A text is a \<^typ>\<open>string\<close>; each \<^typ>\<open>char\<close> stands for the code point of the same number
  (0 to 255), and the character predicates below are Python's on these code points.
  A \<^verbatim>\<open>float\<close> is an exact \<^typ>\<open>real\<close>: the rounding error of binary floating point is not
  part of the model, only the arithmetic the code writes down. Output by \<^verbatim>\<open>print\<close> is left out.
\<close>

definition isspace :: "char \<Rightarrow> bool" where
  "isspace c =
     (let n = (of_char c :: nat)
      in (9 \<le> n \<and> n \<le> 13) \<or> (28 \<le> n \<and> n \<le> 32) \<or> n = 133 \<or> n = 160)"

definition isupper :: "char \<Rightarrow> bool" where
  "isupper c =
     (let n = (of_char c :: nat)
      in (65 \<le> n \<and> n \<le> 90) \<or> (192 \<le> n \<and> n \<le> 214) \<or> (216 \<le> n \<and> n \<le> 222))"

definition isalpha :: "char \<Rightarrow> bool" where
  "isalpha c =
     (let n = (of_char c :: nat)
      in (65 \<le> n \<and> n \<le> 90) \<or> (97 \<le> n \<and> n \<le> 122) \<or> n = 170 \<or> n = 181 \<or> n = 186
         \<or> (192 \<le> n \<and> n \<le> 214) \<or> (216 \<le> n \<and> n \<le> 246) \<or> (248 \<le> n \<and> n \<le> 255))"

definition lower_char :: "char \<Rightarrow> char" where
  "lower_char c = (if isupper c then char_of (of_char c + (32::nat)) else c)"

definition str_lower :: "string \<Rightarrow> string" where
  "str_lower s = map lower_char s"

definition str_strip :: "string \<Rightarrow> string" where
  "str_strip s = rev (dropWhile isspace (rev (dropWhile isspace s)))"

text \<open>
  \<^verbatim>\<open>s.split()\<close>: the maximal runs of characters that are not whitespace, in order.
  The first argument is the word being read.
\<close>

fun split_from :: "string \<Rightarrow> string \<Rightarrow> string list" where
  "split_from cur [] = (if cur = [] then [] else [cur])"
| "split_from cur (c # cs) =
     (if isspace c then (if cur = [] then split_from [] cs else cur # split_from [] cs)
      else split_from (cur @ [c]) cs)"

definition str_split :: "string \<Rightarrow> string list" where
  "str_split s = split_from [] s"

definition str_count :: "string \<Rightarrow> char \<Rightarrow> nat" where
  "str_count s c = length (filter (\<lambda>x. x = c) s)"

text \<open>\<^verbatim>\<open>w in s\<close> on strings: \<open>w\<close> occurs in \<open>s\<close> as a contiguous block.\<close>

definition str_in :: "string \<Rightarrow> string \<Rightarrow> bool" where
  "str_in w s = sublist w s"

text \<open>
  \<^verbatim>\<open>round(x, n)\<close> on a float: the nearest multiple of \<open>10\<^sup>-\<^sup>n\<close>, a tie going to the even
  neighbour.
\<close>

definition round_half_even :: "real \<Rightarrow> int" where
  "round_half_even y =
     (let f = \<lfloor>y\<rfloor>; d = y - of_int f
      in if d < 1 / 2 then f else if d > 1 / 2 then f + 1 else if even f then f else f + 1)"

definition py_round :: "real \<Rightarrow> nat \<Rightarrow> real" where
  "py_round x n = of_int (round_half_even (x * 10 ^ n)) / 10 ^ n"

section \<open>Regular expressions of the pattern list\<close>

text \<open>
  The patterns of \<^verbatim>\<open>SUSPICIOUS_PATTERNS\<close> have two shapes: a literal under \<^verbatim>\<open>(?i)\<close>, and a
  character class repeated at least \<open>n\<close> times. \<^verbatim>\<open>re.search\<close> looks for a match anywhere in
  the text. Under \<^verbatim>\<open>(?i)\<close> a character of the text matches a literal character when their
  lower-case forms agree; the class \<^verbatim>\<open>[\!\?]\<close> has no letters, so the flag changes nothing
  there.
\<close>

datatype pattern = Literal_ci string | Class_run "char list" nat

fun run_search :: "char list \<Rightarrow> nat \<Rightarrow> string \<Rightarrow> bool" where
  "run_search cs n [] = (n = 0)"
| "run_search cs n (c # s) =
     (n \<le> length (takeWhile (\<lambda>x. x \<in> set cs) (c # s)) \<or> run_search cs n s)"

fun re_search :: "pattern \<Rightarrow> string \<Rightarrow> bool" where
  "re_search (Literal_ci p) text = str_in (str_lower p) (str_lower text)"
| "re_search (Class_run cs n) text = run_search cs n text"

section \<open>SimpleRuleBasedDetector\<close>

definition SENSATIONAL_WORDS :: "string list" where
  "SENSATIONAL_WORDS =
     [''shocking'', ''unbelievable'', ''you won't believe'', ''this will shock you'',
      ''celebrities hate'', ''doctors hate'', ''government doesn't want you to know'',
      ''one weird trick'', ''number 7 will blow your mind'', ''he did what?!'',
      ''she secretly'', ''he secretly'', ''this is why'', ''the truth about'']"

definition SUSPICIOUS_PATTERNS :: "pattern list" where
  "SUSPICIOUS_PATTERNS =
     [Literal_ci ''all caps'',
      Class_run ''!?'' 3,
      Literal_ci ''you won't believe'',
      Literal_ci ''sponsored content'']"

record rule_result =
  rr_fake_score :: real
  rr_method :: string

text \<open>
  \<^verbatim>\<open>analyze\<close> appends to the list \<^verbatim>\<open>scores\<close> in five steps; each step is a definition
  of the scores it appends, and \<open>rule_scores\<close> is the list at the end.
\<close>

definition matched_words :: "string \<Rightarrow> string list" where
  "matched_words text = filter (\<lambda>word. str_in word (str_lower text)) SENSATIONAL_WORDS"

definition sensational_count :: "string \<Rightarrow> nat" where
  "sensational_count text = length (matched_words text)"

definition sensational_scores :: "string \<Rightarrow> real list" where
  "sensational_scores text =
     (if sensational_count text > 0 then [min (real (sensational_count text) * 0.15) 0.5] else [])"

definition exclamation_ratio :: "string \<Rightarrow> real" where
  "exclamation_ratio text =
     real (str_count text CHR ''!'') / real (max (length (str_split text)) 1)"

definition exclamation_scores :: "string \<Rightarrow> real list" where
  "exclamation_scores text =
     (if exclamation_ratio text > 0.05 then [min (exclamation_ratio text * 2) 0.3] else [])"

definition caps_ratio :: "string \<Rightarrow> real" where
  "caps_ratio text =
     real (length (filter isupper text)) / real (max (length (filter isalpha text)) 1)"

definition caps_scores :: "string \<Rightarrow> real list" where
  "caps_scores text = (if caps_ratio text > 0.3 then [0.2] else [])"

definition suspicious_scores :: "string \<Rightarrow> real list" where
  "suspicious_scores text =
     map (\<lambda>pattern. 0.15) (filter (\<lambda>pattern. re_search pattern text) SUSPICIOUS_PATTERNS)"

definition word_count :: "string \<Rightarrow> nat" where
  "word_count text = length (str_split text)"

definition length_scores :: "string \<Rightarrow> real list" where
  "length_scores text = (if word_count text < 5 \<or> word_count text > 500 then [0.1] else [])"

definition rule_scores :: "string \<Rightarrow> real list" where
  "rule_scores text =
     sensational_scores text @ exclamation_scores text @ caps_scores text
       @ suspicious_scores text @ length_scores text"

definition analyze :: "string \<Rightarrow> rule_result" where
  "analyze text =
     \<lparr>rr_fake_score = min (sum_list (rule_scores text)) 1.0, rr_method = ''rule-based''\<rparr>"

section \<open>TransformerBasedDetector\<close>

text \<open>
  The Hugging Face pipeline is outside the repository. A loaded pipeline is a function from
  the text to either the message of the exception it raised (\<open>Inl\<close>) or the label and score
  of its first result (\<open>Inr\<close>). \<^verbatim>\<open>_init_model\<close> leaves \<^verbatim>\<open>self.pipeline\<close> at \<^verbatim>\<open>None\<close> when
  loading fails; the outcome of loading is the argument of the constructor here.
\<close>

type_synonym pipeline = "string \<Rightarrow> string + (string \<times> real)"

record TransformerBasedDetector =
  model_name :: string
  pipeline :: "pipeline option"

definition TransformerBasedDetector_init :: "pipeline option \<Rightarrow> TransformerBasedDetector" where
  "TransformerBasedDetector_init loaded =
     \<lparr>model_name = ''distilbert-base-uncased-finetuned-sst-2-english'', pipeline = loaded\<rparr>"

text \<open>
  The dict returned by the transformer's \<^verbatim>\<open>analyze\<close>: \<^verbatim>\<open>fake_score\<close> and \<^verbatim>\<open>method\<close> are in
  every result, the other keys in some; a key that is absent is \<open>None\<close>.
\<close>

record transformer_result =
  tr_fake_score :: real
  tr_error :: "string option"
  tr_sentiment :: "string option"
  tr_confidence :: "real option"
  tr_method :: string

definition transformer_analyze :: "TransformerBasedDetector \<Rightarrow> string \<Rightarrow> transformer_result" where
  "transformer_analyze self text =
     (case pipeline self of
        None \<Rightarrow>
          \<lparr>tr_fake_score = 0.5, tr_error = Some ''Model not loaded'', tr_sentiment = None,
           tr_confidence = None, tr_method = ''transformer''\<rparr>
      | Some p \<Rightarrow>
          (case p (take 512 text) of
             Inl e \<Rightarrow>
               \<lparr>tr_fake_score = 0.5, tr_error = Some e, tr_sentiment = None,
                tr_confidence = None, tr_method = ''transformer''\<rparr>
           | Inr (result_label, score) \<Rightarrow>
               (let label = str_lower result_label;
                    fake_score = (if label = ''negative'' then score else 1.0 - score)
                in \<lparr>tr_fake_score = fake_score, tr_error = None, tr_sentiment = Some label,
                    tr_confidence = Some score, tr_method = ''transformer''\<rparr>)))"

section \<open>FakeNewsDetector\<close>

record FakeNewsDetector =
  use_transformer :: bool
  transformer_detector :: "TransformerBasedDetector option"

definition FakeNewsDetector_init :: "bool \<Rightarrow> pipeline option \<Rightarrow> FakeNewsDetector" where
  "FakeNewsDetector_init use loaded =
     \<lparr>use_transformer = use,
      transformer_detector = (if use then Some (TransformerBasedDetector_init loaded) else None)\<rparr>"

record details =
  rule_based :: rule_result
  transformer :: "transformer_result option"

text \<open>
  The dict returned by \<^verbatim>\<open>predict\<close>. The keys \<^verbatim>\<open>method\<close>, \<^verbatim>\<open>details\<close> and \<^verbatim>\<open>error\<close> are
  not in every result; a key that is absent is \<open>None\<close>. The field \<open>v_method\<close> is the
  key \<^verbatim>\<open>method\<close>.
\<close>

record verdict =
  fake_score :: real
  confidence :: real
  label :: string
  v_method :: "string option"
  details :: "details option"
  error :: "string option"

text \<open>
  \<open>transformer_part\<close> is \<^verbatim>\<open>details["transformer"]\<close> when \<^verbatim>\<open>predict\<close> sets it, and
  \<open>fused_score\<close> is the variable \<^verbatim>\<open>fake_score\<close> of \<^verbatim>\<open>predict\<close> before the label is chosen,
  in full precision.
\<close>

definition transformer_part :: "FakeNewsDetector \<Rightarrow> string \<Rightarrow> transformer_result option" where
  "transformer_part self text =
     (if use_transformer self
      then (case transformer_detector self of
              None \<Rightarrow> None
            | Some td \<Rightarrow> Some (transformer_analyze td text))
      else None)"

definition fused_score :: "FakeNewsDetector \<Rightarrow> string \<Rightarrow> real" where
  "fused_score self text =
     (let fake_score = rr_fake_score (analyze text)
      in case transformer_part self text of
           None \<Rightarrow> fake_score
         | Some transformer_result \<Rightarrow>
             (if tr_error transformer_result = None
              then 0.6 * fake_score + 0.4 * tr_fake_score transformer_result
              else fake_score))"

definition predict :: "FakeNewsDetector \<Rightarrow> string \<Rightarrow> verdict" where
  "predict self text =
     (if text = [] \<or> length (str_strip text) = 0
      then \<lparr>fake_score = 0.5, confidence = 0.0, label = ''UNKNOWN'', v_method = None,
            details = None, error = Some ''Empty text''\<rparr>
      else
        (let fake_score = fused_score self text;
             confidence = \<bar>fake_score - 0.5\<bar> * 2;
             label = (if fake_score > 0.5 then ''FAKE'' else ''REAL'')
         in \<lparr>fake_score = py_round fake_score 3,
             confidence = py_round confidence 3,
             label = label,
             v_method = Some (if use_transformer self then ''hybrid'' else ''rule-based''),
             details = Some \<lparr>rule_based = analyze text,
                             transformer = transformer_part self text\<rparr>,
             error = None\<rparr>))"

definition predict_batch :: "FakeNewsDetector \<Rightarrow> string list \<Rightarrow> verdict list" where
  "predict_batch self texts = map (predict self) texts"

section \<open>Batch mode of the command line\<close>

text \<open>
  \<^verbatim>\<open>batch_mode\<close> of \<^verbatim>\<open>detector_app.py\<close> reads the lines of a file, runs the loop below over
  them and prints the summary. The model starts from the lines read and returns what is
  printed in the summary next to the list \<^verbatim>\<open>results\<close>.
\<close>

fun batch_loop :: "FakeNewsDetector \<Rightarrow> string list \<Rightarrow> (string \<times> verdict) list" where
  "batch_loop detector [] = []"
| "batch_loop detector (line # lines) =
     (let text = str_strip line
      in if text = [] then batch_loop detector lines
         else (text, predict detector text) # batch_loop detector lines)"

record batch_report =
  results :: "(string \<times> verdict) list"
  fake_count :: nat
  real_count :: nat
  total :: nat

definition batch_mode :: "FakeNewsDetector \<Rightarrow> string list \<Rightarrow> batch_report" where
  "batch_mode detector lines =
     (let results = batch_loop detector lines;
          fake_count = length (filter (\<lambda>(t, r). label r = ''FAKE'') results);
          real_count = length results - fake_count
      in \<lparr>results = results, fake_count = fake_count, real_count = real_count,
          total = length results\<rparr>)"

section \<open>Auxiliary notions for the statements\<close>

text \<open>
  \<open>external_used\<close> is the guard of line 181 of \<^verbatim>\<open>predict\<close> together with the test of
  line 178: a transformer result was produced and has no \<^verbatim>\<open>error\<close> key, so its score enters
  the weighted average.
\<close>

definition external_used :: "FakeNewsDetector \<Rightarrow> string \<Rightarrow> bool" where
  "external_used self text =
     (case transformer_part self text of
        None \<Rightarrow> False
      | Some transformer_result \<Rightarrow> tr_error transformer_result = None)"

text \<open>
  The pattern set as the specification words it: three patterns, without the first entry
  of \<^verbatim>\<open>SUSPICIOUS_PATTERNS\<close>. It is compared with the list of the source below.
\<close>

definition spec_suspicious_patterns :: "pattern list" where
  "spec_suspicious_patterns =
     [Class_run ''!?'' 3, Literal_ci ''you won't believe'', Literal_ci ''sponsored content'']"

section \<open>The character-class pattern\<close>

text \<open>
  \<open>run_search\<close> finds what \<^verbatim>\<open>re.search\<close> finds for a class repeated at least \<open>n\<close> times:
  a block of \<open>n\<close> consecutive characters of the class somewhere in the text.
\<close>

lemma takeWhile_run:
  "n \<le> length (takeWhile P s) \<longleftrightarrow> (\<exists>run post. s = run @ post \<and> length run = n \<and> (\<forall>x \<in> set run. P x))"
proof
  assume a: "n \<le> length (takeWhile P s)"
  have "s = take n s @ drop n s" by simp
  moreover have "length (take n s) = n"
    using a length_takeWhile_le [of P s] by simp
  moreover have "\<forall>x \<in> set (take n s). P x"
  proof
    fix x assume "x \<in> set (take n s)"
    then have "x \<in> set (take n (takeWhile P s))"
      using a by (metis append_eq_conv_conj append_take_drop_id length_take min.absorb2 takeWhile_dropWhile_id take_append diff_is_0_eq take_0 append_Nil2)
    then show "P x"
      by (meson in_set_takeD set_takeWhileD)
  qed
  ultimately show "\<exists>run post. s = run @ post \<and> length run = n \<and> (\<forall>x \<in> set run. P x)"
    by blast
next
  assume "\<exists>run post. s = run @ post \<and> length run = n \<and> (\<forall>x \<in> set run. P x)"
  then obtain run post where s: "s = run @ post" and l: "length run = n" and p: "\<forall>x \<in> set run. P x"
    by blast
  from p have "takeWhile P (run @ post) = run @ takeWhile P post"
    by (simp add: takeWhile_append2)
  then show "n \<le> length (takeWhile P s)"
    using s l by simp
qed

lemma run_search_iff:
  "run_search cs n s \<longleftrightarrow>
     (\<exists>pre run post. s = pre @ run @ post \<and> length run = n \<and> set run \<subseteq> set cs)"
proof (induction s)
  case Nil
  then show ?case by auto
next
  case (Cons c s)
  show ?case
  proof
    assume "run_search cs n (c # s)"
    then consider "n \<le> length (takeWhile (\<lambda>x. x \<in> set cs) (c # s))" | "run_search cs n s"
      by auto
    then show "\<exists>pre run post. c # s = pre @ run @ post \<and> length run = n \<and> set run \<subseteq> set cs"
    proof cases
      case 1
      then obtain run post where "c # s = run @ post" "length run = n" "\<forall>x \<in> set run. x \<in> set cs"
        unfolding takeWhile_run by blast
      then have "c # s = [] @ run @ post \<and> length run = n \<and> set run \<subseteq> set cs"
        by auto
      then show ?thesis by blast
    next
      case 2
      then obtain pre run post where "s = pre @ run @ post" "length run = n" "set run \<subseteq> set cs"
        using Cons.IH by blast
      then have "c # s = (c # pre) @ run @ post \<and> length run = n \<and> set run \<subseteq> set cs"
        by simp
      then show ?thesis by blast
    qed
  next
    assume "\<exists>pre run post. c # s = pre @ run @ post \<and> length run = n \<and> set run \<subseteq> set cs"
    then obtain pre run post where e: "c # s = pre @ run @ post" and l: "length run = n"
      and r: "set run \<subseteq> set cs"
      by blast
    show "run_search cs n (c # s)"
    proof (cases pre)
      case Nil
      with e l r have "\<exists>run post. c # s = run @ post \<and> length run = n \<and> (\<forall>x \<in> set run. x \<in> set cs)"
        by auto
      then have "n \<le> length (takeWhile (\<lambda>x. x \<in> set cs) (c # s))"
        unfolding takeWhile_run .
      then show ?thesis by simp
    next
      case (Cons a pre')
      with e have "s = pre' @ run @ post" by simp
      with l r have "run_search cs n s"
        using Cons.IH by blast
      then show ?thesis by simp
    qed
  qed
qed

section \<open>Blank input\<close>

lemma str_strip_Nil_iff: "str_strip s = [] \<longleftrightarrow> list_all isspace s"
proof
  assume a: "str_strip s = []"
  show "list_all isspace s"
  proof (rule ccontr)
    assume n: "\<not> list_all isspace s"
    then have ne: "dropWhile isspace s \<noteq> []"
      by (simp add: dropWhile_eq_Nil_conv list_all_iff)
    then have h: "\<not> isspace (hd (dropWhile isspace s))"
      by (rule hd_dropWhile)
    from a have "dropWhile isspace (rev (dropWhile isspace s)) = []"
      by (simp add: str_strip_def)
    then have "\<forall>x \<in> set (dropWhile isspace s). isspace x"
      by (simp add: dropWhile_eq_Nil_conv)
    with ne h show False
      by (meson hd_in_set)
  qed
next
  assume "list_all isspace s"
  then show "str_strip s = []"
    by (auto simp: str_strip_def list_all_iff dest: set_dropWhileD)
qed

lemma str_strip_nonblank: "str_strip s \<noteq> [] \<Longrightarrow> \<not> list_all isspace (str_strip s)"
proof -
  assume a: "str_strip s \<noteq> []"
  define zs where "zs = dropWhile isspace (rev (dropWhile isspace s))"
  from a have ne: "zs \<noteq> []"
    by (simp add: str_strip_def zs_def)
  then have "\<not> isspace (hd zs)"
    unfolding zs_def by (rule hd_dropWhile)
  moreover from ne have "hd zs \<in> set (rev zs)"
    by simp
  ultimately have "\<not> list_all isspace (rev zs)"
    by (auto simp: list_all_iff)
  then show ?thesis
    by (simp add: str_strip_def zs_def)
qed

lemma blank_iff: "(s = [] \<or> length (str_strip s) = 0) \<longleftrightarrow> list_all isspace s"
  by (auto simp: str_strip_Nil_iff)

lemma predict_blank:
  "list_all isspace s \<Longrightarrow>
   predict det s =
     \<lparr>fake_score = 0.5, confidence = 0.0, label = ''UNKNOWN'', v_method = None,
      details = None, error = Some ''Empty text''\<rparr>"
  using blank_iff [of s] by (simp add: predict_def)

lemma predict_nonblank:
  "\<not> list_all isspace s \<Longrightarrow>
   predict det s =
     \<lparr>fake_score = py_round (fused_score det s) 3,
      confidence = py_round (\<bar>fused_score det s - 0.5\<bar> * 2) 3,
      label = (if fused_score det s > 0.5 then ''FAKE'' else ''REAL''),
      v_method = Some (if use_transformer det then ''hybrid'' else ''rule-based''),
      details = Some \<lparr>rule_based = analyze s, transformer = transformer_part det s\<rparr>,
      error = None\<rparr>"
  using blank_iff [of s] by (simp add: predict_def Let_def)

text \<open>
  Claim C5. A text that is empty or made of whitespace only gets the fixed verdict with
  label UNKNOWN, score 0.5, confidence 0.0 and the error "Empty text", whatever the detector
  is: neither the rule-based analysis nor the transformer has a part in the result.
\<close>

theorem predict_empty_text_unknown:
  "list_all isspace text \<Longrightarrow>
   predict det text =
     \<lparr>fake_score = 0.5, confidence = 0.0, label = ''UNKNOWN'', v_method = None,
      details = None, error = Some ''Empty text''\<rparr>"
  by (rule predict_blank)

theorem predict_empty_text_unknown_witness:
  "list_all isspace [CHR '' '', CHR 0x09, CHR 0x0A] \<and>
   predict (FakeNewsDetector_init True None) [CHR '' '', CHR 0x09, CHR 0x0A] =
     \<lparr>fake_score = 0.5, confidence = 0.0, label = ''UNKNOWN'', v_method = None,
      details = None, error = Some ''Empty text''\<rparr>"
proof -
  have h: "list_all isspace [CHR '' '', CHR 0x09, CHR 0x0A]"
    by (simp add: isspace_def)
  from h predict_empty_text_unknown [OF h] show ?thesis by blast
qed

text \<open>
  Claim C10. The verdict for a blank text has the key \<^verbatim>\<open>error\<close> and neither \<^verbatim>\<open>method\<close> nor
  \<^verbatim>\<open>details\<close>; the verdict for any other text has \<^verbatim>\<open>method\<close> and \<^verbatim>\<open>details\<close> and no
  \<^verbatim>\<open>error\<close>. The keys \<^verbatim>\<open>fake_score\<close>, \<^verbatim>\<open>confidence\<close> and \<^verbatim>\<open>label\<close> are in both.
\<close>

theorem verdict_keys_by_blankness:
  "(v_method (predict det text) = None) = list_all isspace text \<and>
   (details (predict det text) = None) = list_all isspace text \<and>
   (error (predict det text) = None) = (\<not> list_all isspace text)"
  by (cases "list_all isspace text") (simp_all add: predict_blank predict_nonblank)

section \<open>Label\<close>

text \<open>
  Claim C7. For a text that is not blank the label is FAKE exactly when the fused score,
  before rounding, is above 0.5, and REAL otherwise; a fused score of exactly 0.5 gives REAL.
\<close>

theorem label_fake_iff_fused_above_half:
  "\<not> list_all isspace text \<Longrightarrow>
   (label (predict det text) = ''FAKE'') = (fused_score det text > 0.5) \<and>
   (label (predict det text) = ''REAL'') = (\<not> fused_score det text > 0.5)"
  by (simp add: predict_nonblank)

theorem label_fake_iff_fused_above_half_witness:
  "\<not> list_all isspace ''shocking unbelievable this is why the truth about'' \<and>
   fused_score (FakeNewsDetector_init False None)
     ''shocking unbelievable this is why the truth about'' = 0.5 \<and>
   label (predict (FakeNewsDetector_init False None)
     ''shocking unbelievable this is why the truth about'') = ''REAL''"
proof -
  let ?t = "''shocking unbelievable this is why the truth about''"
  let ?d = "FakeNewsDetector_init False None"
  have h: "\<not> list_all isspace ?t"
    by code_simp
  have f: "fused_score ?d ?t = 0.5"
    by code_simp
  from label_fake_iff_fused_above_half [OF h, of ?d] f have "label (predict ?d ?t) = ''REAL''"
    by simp
  with h f show ?thesis by blast
qed

section \<open>Fusion with the transformer\<close>

lemma fused_score_fallback:
  "\<not> external_used det s \<Longrightarrow> fused_score det s = rr_fake_score (analyze s)"
  by (auto simp: fused_score_def external_used_def Let_def split: option.splits)

lemma transformer_analyze_unavailable:
  "pipeline td = None \<Longrightarrow> tr_error (transformer_analyze td s) = Some ''Model not loaded''"
  by (simp add: transformer_analyze_def)

lemma transformer_analyze_raises:
  "pipeline td = Some p \<Longrightarrow> p (take 512 s) = Inl e \<Longrightarrow>
   tr_error (transformer_analyze td s) = Some e"
  by (simp add: transformer_analyze_def)

lemma transformer_analyze_clean:
  "pipeline td = Some p \<Longrightarrow> p (take 512 s) = Inr (l, c) \<Longrightarrow>
   transformer_analyze td s =
     \<lparr>tr_fake_score = (if str_lower l = ''negative'' then c else 1 - c), tr_error = None,
      tr_sentiment = Some (str_lower l), tr_confidence = Some c, tr_method = ''transformer''\<rparr>"
  by (simp add: transformer_analyze_def Let_def)

text \<open>
  When the model of the transformer is not loaded or its call raises, the transformer result
  carries an error, no classification enters the score, and the fused score is the
  rule-based score unchanged.
\<close>

lemma fallback_keeps_heuristic_score:
  assumes "\<not> list_all isspace text"
    and "transformer_detector det = Some td"
    and "pipeline td = None \<or> (\<exists>p e. pipeline td = Some p \<and> p (take 512 text) = Inl e)"
  shows "\<not> external_used det text \<and>
         fused_score det text = rr_fake_score (analyze text) \<and>
         fake_score (predict det text) = py_round (rr_fake_score (analyze text)) 3"
proof -
  have "tr_error (transformer_analyze td text) \<noteq> None"
    using assms(3) transformer_analyze_unavailable transformer_analyze_raises by fastforce
  then have n: "\<not> external_used det text"
    using assms(2) by (simp add: external_used_def transformer_part_def)
  then have f: "fused_score det text = rr_fake_score (analyze text)"
    by (rule fused_score_fallback)
  from n f assms(1) show ?thesis
    by (simp add: predict_nonblank)
qed

text \<open>
  Claim C1. When the transformer is requested and unavailable, the fused score is the
  rule-based score and the method is to be "rule-based", since no classification was used.
  \<^verbatim>\<open>predict\<close> keeps the score (lines 178 to 183 fall back) and breaks the method: line 193
  takes it from \<^verbatim>\<open>use_transformer\<close> alone, against the docstring ("method: detection method
  used"). For "Council approves budget", with the transformer requested and its model not
  loaded, no classification is used, the score is the one of the detector without
  transformer, which reports "rule-based", and the method is "hybrid".
\<close>

theorem method_hybrid_when_model_not_loaded:
  "\<not> external_used (FakeNewsDetector_init True None) ''Council approves budget'' \<and>
   fused_score (FakeNewsDetector_init True None) ''Council approves budget''
     = rr_fake_score (analyze ''Council approves budget'') \<and>
   fake_score (predict (FakeNewsDetector_init True None) ''Council approves budget'')
     = fake_score (predict (FakeNewsDetector_init False None) ''Council approves budget'') \<and>
   v_method (predict (FakeNewsDetector_init False None) ''Council approves budget'')
     = Some ''rule-based'' \<and>
   v_method (predict (FakeNewsDetector_init True None) ''Council approves budget'')
     = Some ''hybrid''"
  by code_simp

text \<open>
  Claim C6. For a text that is not blank, when the transformer returns a label and a score
  without raising, the fused score is 0.6 times the rule-based score plus 0.4 times the
  transformer's fake score, which is the score when the lower-cased label is "negative" and
  one minus the score otherwise. With the label "negative", the score 0.9 and a rule-based
  score of 0.4 the fused score is 0.6 and the label FAKE.
\<close>

theorem fusion_weighted_average:
  assumes "\<not> list_all isspace text"
    and "use_transformer det"
    and "transformer_detector det = Some td"
    and "pipeline td = Some p"
    and "p (take 512 text) = Inr (lbl, c)"
  shows "fused_score det text =
           0.6 * rr_fake_score (analyze text)
             + 0.4 * (if str_lower lbl = ''negative'' then c else 1 - c) \<and>
         v_method (predict det text) = Some ''hybrid'' \<and>
         (rr_fake_score (analyze text) = 0.4 \<and> lbl = ''negative'' \<and> c = 0.9 \<longrightarrow>
            fused_score det text = 0.6 \<and> label (predict det text) = ''FAKE'')"
proof -
  have t: "transformer_part det text = Some (transformer_analyze td text)"
    using assms(2,3) by (simp add: transformer_part_def)
  have f: "fused_score det text =
           0.6 * rr_fake_score (analyze text)
             + 0.4 * (if str_lower lbl = ''negative'' then c else 1 - c)"
    using transformer_analyze_clean [OF assms(4,5)] by (simp add: fused_score_def t)
  have l: "str_lower ''negative'' = ''negative''"
    by code_simp
  from f l assms(1,2) show ?thesis
    by (simp add: predict_nonblank)
qed

theorem fusion_weighted_average_witness:
  "fused_score (FakeNewsDetector_init True (Some (\<lambda>t. Inr (''negative'', 0.9))))
     ''shocking unbelievable'' = 0.6 \<and>
   rr_fake_score (analyze ''shocking unbelievable'') = 0.4 \<and>
   label (predict (FakeNewsDetector_init True (Some (\<lambda>t. Inr (''negative'', 0.9))))
     ''shocking unbelievable'') = ''FAKE'' \<and>
   v_method (predict (FakeNewsDetector_init True (Some (\<lambda>t. Inr (''negative'', 0.9))))
     ''shocking unbelievable'') = Some ''hybrid''"
proof -
  let ?t = "''shocking unbelievable''"
  let ?p = "(\<lambda>t. Inr (''negative'', 0.9)) :: pipeline"
  let ?td = "TransformerBasedDetector_init (Some ?p)"
  let ?d = "FakeNewsDetector_init True (Some ?p)"
  have h1: "\<not> list_all isspace ?t"
    by code_simp
  have h2: "use_transformer ?d"
    by (simp add: FakeNewsDetector_init_def)
  have h3: "transformer_detector ?d = Some ?td"
    by (simp add: FakeNewsDetector_init_def)
  have h4: "pipeline ?td = Some ?p"
    by (simp add: TransformerBasedDetector_init_def)
  have h5: "?p (take 512 ?t) = Inr (''negative'', 0.9)"
    by simp
  have a: "rr_fake_score (analyze ?t) = 0.4"
    by code_simp
  from fusion_weighted_average [OF h1 h2 h3 h4 h5] a show ?thesis
    by simp
qed

section \<open>Batch mode\<close>

lemma batch_loop_eq:
  "batch_loop det lines =
   map (\<lambda>t. (t, predict det t)) (filter (\<lambda>t. t \<noteq> []) (map str_strip lines))"
  by (induction lines) (simp_all add: Let_def)

lemma str_strip_examples:
  "str_strip [] = [] \<and> str_strip ''  '' = [] \<and> str_strip ''Real headline.'' = ''Real headline.''"
  by code_simp

lemma batch_results:
  "results (batch_mode det lines) =
     map (\<lambda>t. (t, predict det t)) (filter (\<lambda>t. t \<noteq> []) (map str_strip lines))"
  by (simp add: batch_mode_def Let_def batch_loop_eq)

lemma batch_total: "total (batch_mode det lines) = length (results (batch_mode det lines))"
  by (simp add: batch_mode_def Let_def)

lemma batch_counts:
  "fake_count (batch_mode det lines) + real_count (batch_mode det lines)
     = total (batch_mode det lines)"
  by (simp add: batch_mode_def Let_def)

lemma predict_label_nonblank: "\<not> list_all isspace s \<Longrightarrow> label (predict det s) \<noteq> ''UNKNOWN''"
  by (simp add: predict_nonblank)

text \<open>
  Claim C2. \<^verbatim>\<open>batch_mode\<close> strips every line and skips the lines that are then empty: the
  texts of the results are the stripped lines that are not blank, in order, each with its
  verdict; no result is blank or UNKNOWN; the total is the number of lines that are not
  blank, and the two counts add up to it. The lines \<^verbatim>\<open>""\<close>, \<^verbatim>\<open>"Real headline."\<close>, \<^verbatim>\<open>"  "\<close>
  give one result, for "Real headline.", and a total of 1.
\<close>

theorem batch_mode_skips_blank_lines:
  "map fst (results (batch_mode det lines)) = filter (\<lambda>t. t \<noteq> []) (map str_strip lines) \<and>
   results (batch_mode det lines) =
     map (\<lambda>t. (t, predict det t)) (filter (\<lambda>t. t \<noteq> []) (map str_strip lines)) \<and>
   list_all (\<lambda>(t, r). \<not> list_all isspace t \<and> label r \<noteq> ''UNKNOWN'')
     (results (batch_mode det lines)) \<and>
   total (batch_mode det lines) = length (filter (\<lambda>l. \<not> list_all isspace l) lines) \<and>
   fake_count (batch_mode det lines) + real_count (batch_mode det lines)
     = total (batch_mode det lines) \<and>
   results (batch_mode det [[], ''Real headline.'', ''  '']) =
     [(''Real headline.'', predict det ''Real headline.'')] \<and>
   total (batch_mode det [[], ''Real headline.'', ''  '']) = 1"
proof -
  have a: "map fst (results (batch_mode det lines))
             = filter (\<lambda>t. t \<noteq> []) (map str_strip lines)"
    by (simp add: batch_results comp_def)
  have b: "list_all (\<lambda>(t, r). \<not> list_all isspace t \<and> label r \<noteq> ''UNKNOWN'')
             (results (batch_mode det lines))"
  proof -
    have "\<not> list_all isspace t \<and> label (predict det t) \<noteq> ''UNKNOWN''"
      if "t \<in> set (filter (\<lambda>t. t \<noteq> []) (map str_strip lines))" for t
      using that str_strip_nonblank predict_label_nonblank by auto
    then show ?thesis
      unfolding batch_results list_all_iff by auto
  qed
  have c: "total (batch_mode det lines) = length (filter (\<lambda>l. \<not> list_all isspace l) lines)"
    by (simp add: batch_total batch_results filter_map comp_def str_strip_Nil_iff)
  have d: "results (batch_mode det [[], ''Real headline.'', ''  '']) =
     [(''Real headline.'', predict det ''Real headline.'')]"
    using str_strip_examples by (simp add: batch_results)
  then have e: "total (batch_mode det [[], ''Real headline.'', ''  '']) = 1"
    by (simp add: batch_total)
  from a b c d e batch_results batch_counts show ?thesis
    by blast
qed

text \<open>
  The method \<^verbatim>\<open>predict_batch\<close> of the detector is a different operation: it has no summary,
  and it keeps one verdict for every entry, blank entries included.
\<close>

lemma predict_batch_keeps_every_entry:
  "length (predict_batch det texts) = length texts \<and>
   map label (predict_batch det [[], ''Real headline.'', ''  ''])
     = [''UNKNOWN'', label (predict det ''Real headline.''), ''UNKNOWN'']"
proof -
  have "list_all isspace []" and "list_all isspace ''  ''"
    by (simp_all add: isspace_def)
  then show ?thesis
    by (simp add: predict_batch_def predict_blank)
qed

section \<open>Rounding\<close>

lemma round_half_even_error: "\<bar>of_int (round_half_even y) - y\<bar> \<le> 1 / 2"
proof -
  have "of_int \<lfloor>y\<rfloor> \<le> y" and "y < of_int \<lfloor>y\<rfloor> + 1"
    by linarith+
  then show ?thesis
    by (auto simp: round_half_even_def Let_def)
qed

lemma round_half_even_floor: "\<lfloor>y\<rfloor> \<le> round_half_even y"
  by (simp add: round_half_even_def Let_def)

lemma round_half_even_ceiling: "round_half_even y \<le> \<lceil>y\<rceil>"
proof (cases "y = of_int \<lfloor>y\<rfloor>")
  case True
  then have "y - of_int \<lfloor>y\<rfloor> = 0" by simp
  then show ?thesis
    by (simp add: round_half_even_def Let_def)
next
  case False
  then have "\<lceil>y\<rceil> = \<lfloor>y\<rfloor> + 1"
    by (simp add: ceiling_altdef)
  then show ?thesis
    by (simp add: round_half_even_def Let_def)
qed

lemma py_round_unit:
  assumes "0 \<le> x" and "x \<le> 1"
  shows "0 \<le> py_round x 3 \<and> py_round x 3 \<le> 1"
proof -
  have "0 \<le> \<lfloor>x * 1000\<rfloor>"
    using assms(1) by simp
  then have lo: "0 \<le> round_half_even (x * 1000)"
    using round_half_even_floor [of "x * 1000"] by linarith
  have "\<lceil>x * 1000\<rceil> \<le> 1000"
    using assms(2) by (simp add: ceiling_le_iff)
  then have hi: "round_half_even (x * 1000) \<le> 1000"
    using round_half_even_ceiling [of "x * 1000"] by linarith
  from lo hi show ?thesis
    by (simp add: py_round_def)
qed

lemma abs_close:
  fixes a F C :: real
  assumes "\<bar>F - a\<bar> \<le> 1 / 2" and "\<bar>C - \<bar>2 * a - 1000\<bar>\<bar> \<le> 1 / 2"
  shows "\<bar>C - \<bar>2 * F - 1000\<bar>\<bar> \<le> 3 / 2"
  using assms by arith

lemma int_close:
  fixes F C :: int
  assumes "\<bar>real_of_int C - \<bar>2 * real_of_int F - 1000\<bar>\<bar> \<le> 3 / 2"
  shows "\<bar>C - \<bar>2 * F - 1000\<bar>\<bar> \<le> 1"
proof -
  have "real_of_int \<bar>C - \<bar>2 * F - 1000\<bar>\<bar> < 2"
    using assms by simp
  then have "\<bar>C - \<bar>2 * F - 1000\<bar>\<bar> < 2"
    by linarith
  then show ?thesis by simp
qed

lemma scale_close:
  fixes x y :: real
  assumes "\<bar>x - \<bar>2 * y - 1000\<bar>\<bar> \<le> 1"
  shows "\<bar>x / 1000 - \<bar>y / 1000 - 5 / 10\<bar> * 2\<bar> \<le> 1 / 1000"
proof -
  define u where "u = \<bar>2 * y - 1000\<bar>"
  have e: "\<bar>y / 1000 - 5 / 10\<bar> * 2 = u / 1000"
    unfolding u_def by (simp add: abs_if)
  have "\<bar>x / 1000 - u / 1000\<bar> \<le> 1 / 1000"
    using assms unfolding u_def [symmetric] by arith
  then show ?thesis
    unfolding e .
qed

lemma scale_abs:
  fixes s :: real
  shows "\<bar>s - 5 / 10\<bar> * 2 * 1000 = \<bar>2 * (s * 1000) - 1000\<bar>"
  by (simp add: abs_if)

lemma rounded_confidence_close:
  "\<bar>py_round (\<bar>s - 0.5\<bar> * 2) 3 - \<bar>py_round s 3 - 0.5\<bar> * 2\<bar> \<le> 1 / 1000"
proof -
  define F where "F = round_half_even (s * 1000)"
  define C where "C = round_half_even (\<bar>s - 0.5\<bar> * 2 * 1000)"
  have f: "\<bar>of_int F - s * 1000\<bar> \<le> 1 / 2"
    unfolding F_def by (rule round_half_even_error)
  have "\<bar>of_int C - \<bar>s - 0.5\<bar> * 2 * 1000\<bar> \<le> 1 / 2"
    unfolding C_def by (rule round_half_even_error)
  then have c: "\<bar>of_int C - \<bar>2 * (s * 1000) - 1000\<bar>\<bar> \<le> 1 / 2"
    unfolding scale_abs .
  have "\<bar>C - \<bar>2 * F - 1000\<bar>\<bar> \<le> 1"
    by (rule int_close [OF abs_close [OF f c]])
  then have "real_of_int \<bar>C - \<bar>2 * F - 1000\<bar>\<bar> \<le> 1"
    by linarith
  then have "\<bar>real_of_int C - \<bar>2 * real_of_int F - 1000\<bar>\<bar> \<le> 1"
    by simp
  then have "\<bar>real_of_int C / 1000 - \<bar>real_of_int F / 1000 - 5 / 10\<bar> * 2\<bar> \<le> 1 / 1000"
    by (rule scale_close)
  then show ?thesis
    by (simp add: py_round_def F_def C_def)
qed

text \<open>
  Claim C3, as stated, fails: the score and the confidence are rounded separately, and the
  two rounded fields need not satisfy the equation. For seven words and one exclamation mark
  the score is 2/7, the fields are 0.286 and 0.429, and |0.286 - 0.5| * 2 is 0.428.
\<close>

theorem rounded_confidence_differs:
  "confidence (predict (FakeNewsDetector_init False None) ''a b c d e f g!'')
     \<noteq> \<bar>fake_score (predict (FakeNewsDetector_init False None) ''a b c d e f g!'') - 0.5\<bar> * 2"
  by code_simp

text \<open>
  Claim C3, amended. The confidence field is |s - 0.5| * 2 rounded to 3 decimals, where s is
  the fused score in full precision, of which the score field is the rounding to 3 decimals
  (0.0 and 0.5 for a blank text). The two fields satisfy the equation up to 0.001.
\<close>

theorem confidence_from_unrounded_score:
  "fake_score (predict det text) =
     (if list_all isspace text then 0.5 else py_round (fused_score det text) 3) \<and>
   confidence (predict det text) =
     (if list_all isspace text then 0 else py_round (\<bar>fused_score det text - 0.5\<bar> * 2) 3) \<and>
   \<bar>confidence (predict det text) - \<bar>fake_score (predict det text) - 0.5\<bar> * 2\<bar> \<le> 1 / 1000"
proof (cases "list_all isspace text")
  case True
  then show ?thesis by (simp add: predict_blank)
next
  case False
  then show ?thesis
    using rounded_confidence_close [of "fused_score det text"] by (simp add: predict_nonblank)
qed

section \<open>Bounds of the scores\<close>

lemma sensational_scores_nonneg: "list_all (\<lambda>x. 0 \<le> x) (sensational_scores s)"
  by (simp add: sensational_scores_def)

lemma exclamation_scores_nonneg: "list_all (\<lambda>x. 0 \<le> x) (exclamation_scores s)"
  by (simp add: exclamation_scores_def)

lemma caps_scores_nonneg: "list_all (\<lambda>x. 0 \<le> x) (caps_scores s)"
  by (simp add: caps_scores_def)

lemma suspicious_scores_nonneg: "list_all (\<lambda>x. 0 \<le> x) (suspicious_scores s)"
  by (simp add: suspicious_scores_def list_all_iff)

lemma length_scores_nonneg: "list_all (\<lambda>x. 0 \<le> x) (length_scores s)"
  by (simp add: length_scores_def)

lemma rule_scores_nonneg: "list_all (\<lambda>x. 0 \<le> x) (rule_scores s)"
  by (simp add: rule_scores_def sensational_scores_nonneg exclamation_scores_nonneg
      caps_scores_nonneg suspicious_scores_nonneg length_scores_nonneg)

lemma analyze_unit: "0 \<le> rr_fake_score (analyze s) \<and> rr_fake_score (analyze s) \<le> 1"
proof -
  have "0 \<le> sum_list (rule_scores s)"
    using rule_scores_nonneg [of s] by (simp add: sum_list_nonneg list_all_iff)
  then show ?thesis
    by (simp add: analyze_def)
qed

lemma fused_score_unit:
  assumes "\<And>td p lbl c. transformer_detector det = Some td \<Longrightarrow> pipeline td = Some p \<Longrightarrow>
             p (take 512 s) = Inr (lbl, c) \<Longrightarrow> 0 \<le> c \<and> c \<le> 1"
  shows "0 \<le> fused_score det s \<and> fused_score det s \<le> 1"
proof (cases "transformer_part det s")
  case None
  then show ?thesis
    using analyze_unit [of s] by (simp add: fused_score_def)
next
  case (Some tr)
  then obtain td where td: "transformer_detector det = Some td"
    and tr: "tr = transformer_analyze td s"
    by (auto simp: transformer_part_def split: if_splits option.splits)
  have "0 \<le> tr_fake_score tr \<and> tr_fake_score tr \<le> 1"
  proof (cases "pipeline td")
    case None
    then show ?thesis by (simp add: tr transformer_analyze_def)
  next
    case (Some p)
    show ?thesis
    proof (cases "p (take 512 s)")
      case (Inl e)
      with Some show ?thesis by (simp add: tr transformer_analyze_def)
    next
      case (Inr r)
      obtain lbl c where r: "r = (lbl, c)" by (cases r)
      from assms [OF td Some] Inr r have "0 \<le> c \<and> c \<le> 1" by simp
      with Some Inr r show ?thesis
        by (simp add: tr transformer_analyze_def Let_def)
    qed
  qed
  with Some analyze_unit [of s] show ?thesis
    by (auto simp: fused_score_def Let_def)
qed

text \<open>
  Claim C8. When every score the pipeline returns for the text lies between 0 and 1, the
  score and the confidence of the verdict lie between 0 and 1, for every text, blank or not.
  The rule-based score is the sum of the list of scores, none of them negative, cut off
  at 1.
\<close>

theorem scores_in_unit_interval:
  assumes "\<forall>td p lbl c. transformer_detector det = Some td \<and> pipeline td = Some p \<and>
             p (take 512 text) = Inr (lbl, c) \<longrightarrow> 0 \<le> c \<and> c \<le> 1"
  shows "0 \<le> fake_score (predict det text) \<and> fake_score (predict det text) \<le> 1 \<and>
         0 \<le> confidence (predict det text) \<and> confidence (predict det text) \<le> 1 \<and>
         list_all (\<lambda>x. 0 \<le> x) (rule_scores text) \<and>
         rr_fake_score (analyze text) = min (sum_list (rule_scores text)) 1 \<and>
         0 \<le> rr_fake_score (analyze text) \<and> rr_fake_score (analyze text) \<le> 1"
proof (cases "list_all isspace text")
  case True
  then show ?thesis
    using rule_scores_nonneg [of "text"] analyze_unit [of "text"]
    by (simp add: predict_blank analyze_def)
next
  case False
  have f: "0 \<le> fused_score det text \<and> fused_score det text \<le> 1"
    using assms by (intro fused_score_unit) blast
  then have c: "0 \<le> \<bar>fused_score det text - 0.5\<bar> * 2 \<and> \<bar>fused_score det text - 0.5\<bar> * 2 \<le> 1"
    by (simp add: abs_if)
  from f have "0 \<le> py_round (fused_score det text) 3 \<and> py_round (fused_score det text) 3 \<le> 1"
    by (simp add: py_round_unit)
  moreover from c have "0 \<le> py_round (\<bar>fused_score det text - 0.5\<bar> * 2) 3 \<and>
      py_round (\<bar>fused_score det text - 0.5\<bar> * 2) 3 \<le> 1"
    using py_round_unit by blast
  ultimately show ?thesis
    using False rule_scores_nonneg [of "text"] analyze_unit [of "text"]
    by (simp add: predict_nonblank analyze_def)
qed

theorem scores_in_unit_interval_witness:
  "0 \<le> fake_score (predict (FakeNewsDetector_init True (Some (\<lambda>t. Inr (''POSITIVE'', 0.25))))
          ''Shocking news today'') \<and>
   fake_score (predict (FakeNewsDetector_init True (Some (\<lambda>t. Inr (''POSITIVE'', 0.25))))
     ''Shocking news today'') \<le> 1 \<and>
   0 \<le> confidence (predict (FakeNewsDetector_init True (Some (\<lambda>t. Inr (''POSITIVE'', 0.25))))
          ''Shocking news today'') \<and>
   confidence (predict (FakeNewsDetector_init True (Some (\<lambda>t. Inr (''POSITIVE'', 0.25))))
     ''Shocking news today'') \<le> 1"
proof -
  let ?p = "(\<lambda>t. Inr (''POSITIVE'', 0.25)) :: pipeline"
  let ?d = "FakeNewsDetector_init True (Some ?p)"
  have h: "\<forall>td p lbl c. transformer_detector ?d = Some td \<and> pipeline td = Some p \<and>
             p (take 512 ''Shocking news today'') = Inr (lbl, c) \<longrightarrow> 0 \<le> c \<and> c \<le> 1"
    by (auto simp: FakeNewsDetector_init_def TransformerBasedDetector_init_def)
  from scores_in_unit_interval [OF h] show ?thesis
    by blast
qed

section \<open>Sensational phrases\<close>

lemma distinct_SENSATIONAL_WORDS: "distinct SENSATIONAL_WORDS"
  by (simp add: SENSATIONAL_WORDS_def)

lemma sensational_count_card:
  "sensational_count s = card {w \<in> set SENSATIONAL_WORDS. str_in w (str_lower s)}"
proof -
  have "distinct (matched_words s)"
    by (simp add: matched_words_def distinct_SENSATIONAL_WORDS)
  then have "length (matched_words s) = card (set (matched_words s))"
    by (simp add: distinct_card)
  then show ?thesis
    by (simp add: sensational_count_def matched_words_def)
qed

lemma sensational_count_mono:
  assumes "set (matched_words a) \<subseteq> set (matched_words b)"
  shows "sensational_count a \<le> sensational_count b"
proof -
  have "card (set (matched_words a)) \<le> card (set (matched_words b))"
    using assms by (simp add: card_mono)
  moreover have "distinct (matched_words a)" and "distinct (matched_words b)"
    by (simp_all add: matched_words_def distinct_SENSATIONAL_WORDS)
  ultimately show ?thesis
    by (simp add: sensational_count_def distinct_card)
qed

lemma sensational_sum:
  "sum_list (sensational_scores s) = min (0.15 * real (sensational_count s)) 0.5"
  by (simp add: sensational_scores_def mult.commute)

lemma rule_scores_sum:
  "sum_list (rule_scores s) =
     sum_list (sensational_scores s) + sum_list (exclamation_scores s) + sum_list (caps_scores s)
       + sum_list (suspicious_scores s) + sum_list (length_scores s)"
  by (simp add: rule_scores_def)

text \<open>
  Claim C9. The sensational phrases contribute min(0.15 * n, 0.5) to the sum, n being the
  number of distinct phrases of the list that occur in the lower-cased text. Of two texts
  whose other four rules append the same scores, the one whose matched phrases include the
  other's has a contribution, and a rule-based score, that is not lower.
\<close>

theorem sensational_contribution_monotone:
  assumes "set (matched_words t1) \<subseteq> set (matched_words t2)"
    and "exclamation_scores t1 = exclamation_scores t2"
    and "caps_scores t1 = caps_scores t2"
    and "suspicious_scores t1 = suspicious_scores t2"
    and "length_scores t1 = length_scores t2"
  shows "sum_list (sensational_scores t1) = min (0.15 * real (sensational_count t1)) 0.5 \<and>
         sum_list (sensational_scores t2) = min (0.15 * real (sensational_count t2)) 0.5 \<and>
         sensational_count t1 = card {w \<in> set SENSATIONAL_WORDS. str_in w (str_lower t1)} \<and>
         sensational_count t2 = card {w \<in> set SENSATIONAL_WORDS. str_in w (str_lower t2)} \<and>
         sum_list (sensational_scores t1) \<le> sum_list (sensational_scores t2) \<and>
         rr_fake_score (analyze t1) \<le> rr_fake_score (analyze t2)"
proof -
  have "sensational_count t1 \<le> sensational_count t2"
    using assms(1) by (rule sensational_count_mono)
  then have "0.15 * real (sensational_count t1) \<le> 0.15 * real (sensational_count t2)"
    by simp
  then have m: "sum_list (sensational_scores t1) \<le> sum_list (sensational_scores t2)"
    unfolding sensational_sum by (intro min.mono) simp_all
  then have "sum_list (rule_scores t1) \<le> sum_list (rule_scores t2)"
    using assms(2-5) by (simp add: rule_scores_sum)
  then have "min (sum_list (rule_scores t1)) 1 \<le> min (sum_list (rule_scores t2)) 1"
    by (intro min.mono) simp_all
  then have a: "rr_fake_score (analyze t1) \<le> rr_fake_score (analyze t2)"
    by (simp add: analyze_def)
  from m a sensational_sum sensational_count_card show ?thesis
    by blast
qed

theorem sensational_contribution_monotone_witness:
  "set (matched_words ''shocking report on the city budget'') \<subseteq>
     set (matched_words ''shocking unbelievable report on the city budget'') \<and>
   sum_list (sensational_scores ''shocking report on the city budget'') = 0.15 \<and>
   sum_list (sensational_scores ''shocking unbelievable report on the city budget'') = 0.3 \<and>
   rr_fake_score (analyze ''shocking report on the city budget'')
     \<le> rr_fake_score (analyze ''shocking unbelievable report on the city budget'')"
proof -
  let ?a = "''shocking report on the city budget''"
  let ?b = "''shocking unbelievable report on the city budget''"
  have ma: "matched_words ?a = [''shocking'']"
    by code_simp
  have mb: "matched_words ?b = [''shocking'', ''unbelievable'']"
    by code_simp
  have h1: "set (matched_words ?a) \<subseteq> set (matched_words ?b)"
    by (simp add: ma mb)
  have h2: "exclamation_scores ?a = exclamation_scores ?b"
    by code_simp
  have h3: "caps_scores ?a = caps_scores ?b"
    by code_simp
  have h4: "suspicious_scores ?a = suspicious_scores ?b"
    by code_simp
  have h5: "length_scores ?a = length_scores ?b"
    by code_simp
  have ca: "sensational_count ?a = 1" and cb: "sensational_count ?b = 2"
    by (simp_all add: sensational_count_def ma mb)
  from sensational_contribution_monotone [OF h1 h2 h3 h4 h5] h1 show ?thesis
    by (simp add: ca cb)
qed

section \<open>Suspicious patterns\<close>

lemma suspicious_scores_unfold:
  "suspicious_scores s =
     (if re_search (Literal_ci ''all caps'') s then [0.15] else [])
       @ map (\<lambda>p. 0.15) (filter (\<lambda>p. re_search p s) spec_suspicious_patterns)"
  by (simp add: suspicious_scores_def SUSPICIOUS_PATTERNS_def spec_suspicious_patterns_def)

lemma sum_list_const_map: "sum_list (map (\<lambda>p. c) xs) = (c::real) * real (length xs)"
  by (induction xs) (simp_all add: algebra_simps)

text \<open>
  What the patterns match: the class pattern a block of three consecutive characters out of
  ! and ?, each literal its words in any letter case.
\<close>

lemma pattern_literals_lower:
  "str_lower ''all caps'' = ''all caps'' \<and>
   str_lower ''you won't believe'' = ''you won't believe'' \<and>
   str_lower ''sponsored content'' = ''sponsored content''"
  by code_simp

lemma re_search_patterns:
  "re_search (Class_run ''!?'' 3) s =
     (\<exists>pre run post. s = pre @ run @ post \<and> length run = 3
        \<and> set run \<subseteq> {CHR ''!'', CHR ''?''})"
  "re_search (Literal_ci ''you won't believe'') s = sublist ''you won't believe'' (str_lower s)"
  "re_search (Literal_ci ''sponsored content'') s = sublist ''sponsored content'' (str_lower s)"
  "re_search (Literal_ci ''all caps'') s = sublist ''all caps'' (str_lower s)"
  using pattern_literals_lower by (simp_all add: run_search_iff str_in_def)

text \<open>
  For a text in which "all caps" does not occur (in any letter case), the rule appends one
  0.15 for each of the three other patterns that matches. These scores enter the sum as they
  are; only the sum of all rules is cut off at 1.
\<close>

lemma suspicious_contribution_three_patterns:
  assumes "\<not> sublist ''all caps'' (str_lower s)"
  shows "suspicious_scores s =
           map (\<lambda>p. 0.15) (filter (\<lambda>p. re_search p s) spec_suspicious_patterns) \<and>
         sum_list (suspicious_scores s) =
           0.15 * real (length (filter (\<lambda>p. re_search p s) spec_suspicious_patterns)) \<and>
         rr_fake_score (analyze s) =
           min (sum_list (sensational_scores s) + sum_list (exclamation_scores s)
                + sum_list (caps_scores s)
                + 0.15 * real (length (filter (\<lambda>p. re_search p s) spec_suspicious_patterns))
                + sum_list (length_scores s)) 1"
proof -
  have n: "\<not> re_search (Literal_ci ''all caps'') s"
    using assms unfolding re_search_patterns .
  have a: "suspicious_scores s =
           map (\<lambda>p. 0.15) (filter (\<lambda>p. re_search p s) spec_suspicious_patterns)"
    using n by (simp add: suspicious_scores_unfold)
  have b: "sum_list (suspicious_scores s) =
           0.15 * real (length (filter (\<lambda>p. re_search p s) spec_suspicious_patterns))"
    unfolding a by (rule sum_list_const_map)
  have c: "rr_fake_score (analyze s) = min (sum_list (rule_scores s)) 1"
    by (simp add: analyze_def)
  show ?thesis
    using a b c unfolding rule_scores_sum by simp
qed

lemma suspicious_contribution_example:
  "suspicious_scores ''Sponsored Content: you won't believe it?!?'' = [0.15, 0.15, 0.15]"
  by code_simp

text \<open>
  Claim C4. The rule is to add 0.15 for each matching pattern out of three or more
  consecutive ! or ?, "you won't believe" and "sponsored content", and for no other. The
  list of the source has a fourth pattern, \<^verbatim>\<open>(?i)all caps\<close>, commented "Heavy use of caps":
  it matches the words "all caps", not capital letters. The text "please avoid all caps in
  headlines" has no capital letter and matches none of the three patterns, and the rule
  adds 0.15, which is the whole score of the text.
\<close>

theorem all_caps_phrase_contributes:
  "filter isupper ''please avoid all caps in headlines'' = [] \<and>
   filter (\<lambda>p. re_search p ''please avoid all caps in headlines'') spec_suspicious_patterns
     = [] \<and>
   suspicious_scores ''please avoid all caps in headlines'' = [0.15] \<and>
   rr_fake_score (analyze ''please avoid all caps in headlines'') = 0.15"
  by code_simp

end
